theory Spec2Isabelle
  imports Main "HOL-Library.Multiset" "HOL-Library.Product_Lexorder" "HOL-Library.AList"
begin

section \<open>Quotas: data model\<close>

text \<open>
  Embedding of \<^verbatim>\<open>src/pretix/base/models/items.py\<close>. Python integers are \<open>int\<close>,
  a nullable field is an \<open>option\<close>, a queryset is the list of its rows. A point in time
  (\<^verbatim>\<open>datetime\<close>) is a timestamp in whole seconds; \<^verbatim>\<open>now()\<close> is passed to every
  function that reads the clock.
\<close>

type_synonym datetime = int

text \<open>
  Modelled from the spec: the \<^verbatim>\<open>Order\<close>, \<^verbatim>\<open>OrderPosition\<close> and \<^verbatim>\<open>CartPosition\<close>
  models are imported by the source but declared elsewhere. An order has a status, of which
  the source names \<^verbatim>\<open>STATUS_PAID\<close> and \<^verbatim>\<open>STATUS_PENDING\<close>, and an expiry timestamp;
  a position refers to an item and optionally to a variation; a cart position has an
  expiry timestamp of its own.
\<close>

datatype order_status =
  STATUS_PENDING | STATUS_PAID | STATUS_EXPIRED | STATUS_CANCELLED | STATUS_REFUNDED

text \<open>
  A position, as far as \<^verbatim>\<open>_position_lookup\<close> reads it: the ids of the quotas of its
  item, and the ids of the quotas of its variation (\<open>None\<close> when \<^verbatim>\<open>variation\<close> is null),
  each list as the rows of the many-to-many table.
\<close>

record position =
  item_quotas :: "nat list"
  variation_quotas :: "nat list option"

record order_position = position +
  order_status :: order_status
  order_expires :: datetime

record cart_position = position +
  expires :: datetime

record db =
  order_positions :: "order_position list"
  cart_positions :: "cart_position list"

record quota =
  quota_id :: nat
  quota_size :: "int option"

definition AVAILABILITY_GONE :: int where
  "AVAILABILITY_GONE = 0"

definition AVAILABILITY_ORDERED :: int where
  "AVAILABILITY_ORDERED = 10"

definition AVAILABILITY_RESERVED :: int where
  "AVAILABILITY_RESERVED = 20"

definition AVAILABILITY_OK :: int where
  "AVAILABILITY_OK = 100"

section \<open>Quotas: counting and availability\<close>

text \<open>
  A queryset filtered by \<^verbatim>\<open>Quota._position_lookup\<close>. The lookup is a disjunction over
  two many-to-many relations (\<^verbatim>\<open>item__quotas\<close> and \<^verbatim>\<open>variation__quotas\<close>), so the
  query LEFT OUTER JOINs the positions with both relation tables and has no
  \<^verbatim>\<open>DISTINCT\<close>: a position gives one row for every pair of a quota of its item and a
  quota of its variation, with NULL on a side that has no quota (or, for the variation's
  side, no variation). The aggregate and \<^verbatim>\<open>.count()\<close> run over the rows that satisfy
  the lookup, so a position is counted once for each such row.
\<close>

definition left_outer_join :: "nat list \<Rightarrow> nat option list" where
  "left_outer_join qs = (if qs = [] then [None] else map Some qs)"

definition joined_rows :: "'a position_scheme \<Rightarrow> (nat option \<times> nat option) list" where
  "joined_rows p =
     List.product (left_outer_join (item_quotas p))
       (left_outer_join (case variation_quotas p of None \<Rightarrow> [] | Some qs \<Rightarrow> qs))"

text \<open>
  \<^verbatim>\<open>Quota._position_lookup\<close> on one joined row: the position has no variation and the
  row's item quota is this quota, or the row's variation quota is this quota. A comparison
  with NULL does not hold.
\<close>

definition position_lookup ::
  "quota \<Rightarrow> 'a position_scheme \<Rightarrow> nat option \<times> nat option \<Rightarrow> bool" where
  "position_lookup self p row =
     ((variation_quotas p = None \<and> fst row = Some (quota_id self))
      \<or> snd row = Some (quota_id self))"

text \<open>
  The rows of \<^verbatim>\<open>objects.filter(cond)\<close>, each row shown as the position it belongs to.
\<close>

definition filter_rows ::
  "('a position_scheme \<Rightarrow> nat option \<times> nat option \<Rightarrow> bool) \<Rightarrow> 'a position_scheme list
     \<Rightarrow> 'a position_scheme list" where
  "filter_rows cond ps = concat (map (\<lambda>p. map (\<lambda>row. p) (filter (cond p) (joined_rows p))) ps)"

text \<open>
  The aggregate \<^verbatim>\<open>Sum(Case(When(c, then=1)))\<close>: a row contributes 1 where the
  condition holds and NULL otherwise; the sum skips NULLs and is itself NULL when nothing
  was added.
\<close>

definition Case_When :: "bool \<Rightarrow> int option" where
  "Case_When c = (if c then Some 1 else None)"

fun Sum_agg :: "int option list \<Rightarrow> int option" where
  "Sum_agg [] = None"
| "Sum_agg (None # vs) = Sum_agg vs"
| "Sum_agg (Some v # vs) = (case Sum_agg vs of None \<Rightarrow> Some v | Some s \<Rightarrow> Some (v + s))"

record order_counts =
  paid :: int
  pending :: int

definition none_to_zero :: "int option \<Rightarrow> int" where
  "none_to_zero v = (case v of None \<Rightarrow> 0 | Some n \<Rightarrow> n)"

definition count_orders :: "datetime \<Rightarrow> db \<Rightarrow> quota \<Rightarrow> order_counts" where
  "count_orders now db self =
     (let rows = filter_rows (position_lookup self) (order_positions db);
          o_paid = Sum_agg (map (\<lambda>p. Case_When (order_status p = STATUS_PAID)) rows);
          o_pending = Sum_agg (map (\<lambda>p. Case_When (order_status p = STATUS_PENDING
                                                      \<and> order_expires p \<ge> now)) rows)
      in \<lparr>paid = none_to_zero o_paid, pending = none_to_zero o_pending\<rparr>)"

definition count_in_cart :: "datetime \<Rightarrow> db \<Rightarrow> quota \<Rightarrow> int" where
  "count_in_cart now db self =
     int (length (filter_rows (\<lambda>p row. expires p \<ge> now \<and> position_lookup self p row)
                    (cart_positions db)))"

definition availability :: "datetime \<Rightarrow> db \<Rightarrow> quota \<Rightarrow> int \<times> int option" where
  "availability now db self =
     (case quota_size self of
        None \<Rightarrow> (AVAILABILITY_OK, None)
      | Some size_left \<Rightarrow>
          (let orders = count_orders now db self;
               size_left = size_left - paid orders
           in if size_left \<le> 0 then (AVAILABILITY_GONE, Some 0)
              else let size_left = size_left - pending orders
                   in if size_left \<le> 0 then (AVAILABILITY_ORDERED, Some 0)
                      else let size_left = size_left - count_in_cart now db self
                           in if size_left \<le> 0 then (AVAILABILITY_RESERVED, Some 0)
                              else (AVAILABILITY_OK, Some size_left)))"

section \<open>Quotas of an item or variation\<close>

datatype error = ValueError string

text \<open>
  Python's \<^verbatim>\<open>min(xs, key=f)\<close>: the first element whose key is least; it raises
  \<^verbatim>\<open>ValueError\<close> on an empty list.
\<close>

definition min_key :: "('a \<Rightarrow> 'k::linorder) \<Rightarrow> 'a list \<Rightarrow> error + 'a" where
  "min_key key xs =
     (case xs of
        [] \<Rightarrow> Inl (ValueError ''min() arg is an empty sequence'')
      | x # rest \<Rightarrow> Inr (fold (\<lambda>y m. if key y < key m then y else m) rest x))"

text \<open>\<^verbatim>\<open>sys.maxsize\<close> of a 64-bit CPython.\<close>

definition sys_maxsize :: int where
  "sys_maxsize = 2 ^ 63 - 1"

text \<open>
  The key \<^verbatim>\<open>lambda s: (s[0], s[1] if s[1] is not None else sys.maxsize)\<close>; tuples
  compare lexicographically.
\<close>

definition check_quotas_key :: "int \<times> int option \<Rightarrow> int \<times> int" where
  "check_quotas_key s = (fst s, (case snd s of Some r \<Rightarrow> r | None \<Rightarrow> sys_maxsize))"

section \<open>Items, properties and variations\<close>

text \<open>Prices (\<^verbatim>\<open>Decimal\<close> with two places) are counted in hundredths.\<close>

type_synonym decimal = int

text \<open>
  A \<^verbatim>\<open>PropertyValue\<close> with the id of its property (\<^verbatim>\<open>v.prop.id\<close>, \<^verbatim>\<open>v.prop_id\<close>)
  and its own id. A \<^verbatim>\<open>Property\<close> lists the ids of its values in their order;
  \<open>values_all\<close> is \<^verbatim>\<open>prop.values.all()\<close>, the reverse side of that foreign key.
\<close>

record property_value =
  pv_prop :: nat
  pv_id :: nat

record property =
  prop_id :: nat
  prop_values :: "nat list"

definition values_all :: "property \<Rightarrow> property_value list" where
  "values_all prop = map (\<lambda>i. \<lparr>pv_prop = prop_id prop, pv_id = i\<rparr>) (prop_values prop)"

record item_variation =
  var_id :: nat
  var_values :: "property_value list"
  var_active :: bool
  var_default_price :: "decimal option"
  var_quotas :: "quota list"

record item =
  active :: bool
  available_from :: "datetime option"
  available_until :: "datetime option"
  default_price :: "decimal option"
  properties :: "property list"
  variations :: "item_variation list"
  quotas :: "quota list"

text \<open>
  A \<^verbatim>\<open>VariationDict\<close>: the entries under property ids, and the three special keys
  \<^verbatim>\<open>'variation'\<close>, \<^verbatim>\<open>'available'\<close> and \<^verbatim>\<open>'price'\<close>, each \<open>None\<close> while the key is
  absent (a price that is present may itself be null).
\<close>

record variation_dict =
  entries :: "(nat \<times> property_value) list"
  variation :: "item_variation option"
  available :: "bool option"
  price :: "decimal option option"

definition VariationDict :: variation_dict where
  "VariationDict = \<lparr>entries = [], variation = None, available = None, price = None\<rparr>"

definition set_entry :: "property_value \<Rightarrow> variation_dict \<Rightarrow> variation_dict" where
  "set_entry v d = d\<lparr>entries := AList.update (pv_prop v) v (entries d)\<rparr>"

text \<open>\<^verbatim>\<open>Item.is_available\<close>; a datetime that is not null is truthy.\<close>

definition is_available :: "datetime \<Rightarrow> item \<Rightarrow> bool" where
  "is_available now self =
     (if \<not> active self then False
      else if (case available_from self of None \<Rightarrow> False | Some t \<Rightarrow> t > now) then False
      else if (case available_until self of None \<Rightarrow> False | Some t \<Rightarrow> t < now) then False
      else True)"

text \<open>\<^verbatim>\<open>itertools.product(*lists)\<close>: the last list varies fastest.\<close>

fun itertools_product :: "'a list list \<Rightarrow> 'a list list" where
  "itertools_product [] = [[]]"
| "itertools_product (xs # xss) =
     concat (map (\<lambda>x. map (\<lambda>rest. x # rest) (itertools_product xss)) xs)"

text \<open>The key \<^verbatim>\<open>tuple(sorted(key))\<close> of \<^verbatim>\<open>(prop id, value id)\<close> pairs.\<close>

definition variation_key :: "property_value list \<Rightarrow> (nat \<times> nat) list" where
  "variation_key vs = sort (map (\<lambda>v. (pv_prop v, pv_id v)) vs)"

text \<open>
  \<^verbatim>\<open>Item.get_all_variations\<close>, called with \<^verbatim>\<open>use_cache=False\<close> (the default), so
  that the result is computed.
\<close>

definition get_all_variations :: "item \<Rightarrow> variation_dict list" where
  "get_all_variations self =
     (let all_variations = variations self;
          all_properties = properties self;
          variations_cache =
            fold (\<lambda>var cache. AList.update (variation_key (var_values var)) var cache)
              all_variations []
      in map (\<lambda>comb.
                if length comb = 0 then VariationDict
                else let var = fold set_entry comb VariationDict;
                         key = variation_key comb
                     in (case map_of variations_cache key of
                           Some found \<Rightarrow> var\<lparr>variation := Some found\<rparr>
                         | None \<Rightarrow> var))
           (itertools_product (map values_all all_properties)))"

text \<open>\<^verbatim>\<open>Item._get_all_generated_variations\<close>.\<close>

definition get_all_generated_variations :: "item \<Rightarrow> variation_dict list" where
  "get_all_generated_variations self =
     (let propids = set (map prop_id (properties self))
      in if card propids = 0 then [VariationDict]
         else let all_variations = filter (\<lambda>var. length (var_quotas var) > 0) (variations self)
              in map (\<lambda>var. (fold set_entry (var_values var) VariationDict)
                               \<lparr>variation := Some var\<rparr>)
                   (filter (\<lambda>var. \<not> (set (map pv_prop (var_values var)) \<noteq> propids))
                      all_variations))"

text \<open>\<^verbatim>\<open>Item.get_all_available_variations\<close>, called with \<^verbatim>\<open>use_cache=False\<close>.\<close>

definition set_available_and_price :: "item \<Rightarrow> variation_dict \<Rightarrow> variation_dict" where
  "set_available_and_price self var =
     (let var = var\<lparr>available :=
                      Some (case variation var of Some v \<Rightarrow> var_active v | None \<Rightarrow> True)\<rparr>
      in (case variation var of
            Some v \<Rightarrow>
              (if var_default_price v \<noteq> None then var\<lparr>price := Some (var_default_price v)\<rparr>
               else var\<lparr>price := Some (default_price self)\<rparr>)
          | None \<Rightarrow> var\<lparr>price := Some (default_price self)\<rparr>))"

definition get_all_available_variations :: "item \<Rightarrow> variation_dict list" where
  "get_all_available_variations self =
     (let variations = get_all_generated_variations self;
          variations = map (set_available_and_price self) variations
      in filter (\<lambda>var. available var = Some True) variations)"

text \<open>\<^verbatim>\<open>Item.check_quotas\<close> and \<^verbatim>\<open>ItemVariation.check_quotas\<close>.\<close>

definition Item_check_quotas :: "datetime \<Rightarrow> db \<Rightarrow> item \<Rightarrow> error + (int \<times> int option)" where
  "Item_check_quotas now db self =
     (if length (properties self) > 0
      then Inl (ValueError (''Do not call this directly on items which have properties ''
                            @ ''but call this on their ItemVariation objects''))
      else min_key check_quotas_key (map (availability now db) (quotas self)))"

definition ItemVariation_check_quotas ::
  "datetime \<Rightarrow> db \<Rightarrow> item_variation \<Rightarrow> error + (int \<times> int option)" where
  "ItemVariation_check_quotas now db self =
     min_key check_quotas_key (map (availability now db) (var_quotas self))"

section \<open>The specification's orderings and notions\<close>

text \<open>
  The order the specification gives for combining quotas, written from its words: first
  by status (the status codes are ordered \<open>GONE < ORDERED < RESERVED < OK\<close>), then by the
  smaller remaining count, a null (unlimited) remaining being larger than every finite one.
  \<open>spec_minimum rs m\<close>: the pair \<open>m\<close> is one of \<open>rs\<close> and least among them.
\<close>

definition remaining_le :: "int option \<Rightarrow> int option \<Rightarrow> bool" where
  "remaining_le a b =
     (case b of None \<Rightarrow> True | Some y \<Rightarrow> (case a of None \<Rightarrow> False | Some x \<Rightarrow> x \<le> y))"

definition spec_le :: "int \<times> int option \<Rightarrow> int \<times> int option \<Rightarrow> bool" where
  "spec_le a b = (fst a < fst b \<or> (fst a = fst b \<and> remaining_le (snd a) (snd b)))"

definition spec_minimum :: "(int \<times> int option) list \<Rightarrow> int \<times> int option \<Rightarrow> bool" where
  "spec_minimum rs m = (m \<in> set rs \<and> (\<forall>r\<in>set rs. spec_le m r))"

text \<open>
  A variation covers exactly the item's property set when the properties its values refer
  to are the item's properties, each referred to once: no property is missing, no value
  belongs to another property, and no property has two values.
\<close>

definition covers_exactly :: "item \<Rightarrow> item_variation \<Rightarrow> bool" where
  "covers_exactly self var =
     (mset (map pv_prop (var_values var)) = mset (map prop_id (properties self)))"

text \<open>
  The number of joined rows of a position that satisfy the lookup of a quota: how often the
  position is counted for that quota.
\<close>

definition matching_rows :: "quota \<Rightarrow> 'a position_scheme \<Rightarrow> nat" where
  "matching_rows self p = length (filter (position_lookup self p) (joined_rows p))"

section \<open>Example data\<close>

text \<open>
  Quota 1 has capacity 10, quota 2 capacity 5 and quota 3 (\<open>ex_unlimited\<close>) no capacity.
  \<open>ex_db p n k\<close> holds \<open>p\<close> paid positions, \<open>n\<close> pending positions that expire at 150
  and \<open>k\<close> cart positions that expire at 150, all of an item without variation that is in
  the quotas 1 and 3. \<open>ex_variation_order\<close> and \<open>ex_variation_cart\<close> are positions of
  the same item with a variation that is in quota 1; \<open>ex_orders\<close> mixes both kinds.
\<close>

definition ex_quota :: quota where
  "ex_quota = \<lparr>quota_id = 1, quota_size = Some 10\<rparr>"

definition ex_quota2 :: quota where
  "ex_quota2 = \<lparr>quota_id = 2, quota_size = Some 5\<rparr>"

definition ex_unlimited :: quota where
  "ex_unlimited = \<lparr>quota_id = 3, quota_size = None\<rparr>"

definition ex_order :: "order_status \<Rightarrow> datetime \<Rightarrow> order_position" where
  "ex_order st t =
     \<lparr>item_quotas = [1, 3], variation_quotas = None, order_status = st, order_expires = t\<rparr>"

definition ex_cart :: "datetime \<Rightarrow> cart_position" where
  "ex_cart t = \<lparr>item_quotas = [1, 3], variation_quotas = None, expires = t\<rparr>"

definition ex_variation_order :: "order_status \<Rightarrow> datetime \<Rightarrow> order_position" where
  "ex_variation_order st t =
     \<lparr>item_quotas = [1, 3], variation_quotas = Some [1], order_status = st, order_expires = t\<rparr>"

definition ex_variation_cart :: "datetime \<Rightarrow> cart_position" where
  "ex_variation_cart t = \<lparr>item_quotas = [1, 3], variation_quotas = Some [1], expires = t\<rparr>"

definition ex_db :: "nat \<Rightarrow> nat \<Rightarrow> nat \<Rightarrow> db" where
  "ex_db p n k =
     \<lparr>order_positions = replicate p (ex_order STATUS_PAID 50) @ replicate n (ex_order STATUS_PENDING 150),
      cart_positions = replicate k (ex_cart 150)\<rparr>"

definition ex_orders :: db where
  "ex_orders =
     \<lparr>order_positions = [ex_order STATUS_PENDING 99, ex_order STATUS_PENDING 100,
                         ex_order STATUS_PAID 99, ex_order STATUS_EXPIRED 200,
                         ex_variation_order STATUS_PAID 99, ex_variation_order STATUS_PENDING 100],
      cart_positions = [ex_cart 99, ex_cart 100, ex_variation_cart 100]\<rparr>"

definition cx_quotas :: "quota list" where
  "cx_quotas = [\<lparr>quota_id = 1, quota_size = None\<rparr>, \<lparr>quota_id = 2, quota_size = Some sys_maxsize\<rparr>]"

text \<open>
  An item without properties, on sale exactly at time 100; the same item with the
  properties 1 (values 10 and 11) and 2 (value 20) and three variations: one in three
  quotas, one in no quota, and one left over from the time before property 2 existed;
  and an item with property 1 only whose single variation has both values of it.
\<close>

definition ex_item :: item where
  "ex_item = \<lparr>active = True, available_from = Some 100, available_until = Some 100,
              default_price = Some 1500, properties = [], variations = [],
              quotas = [ex_unlimited, ex_quota, ex_quota2]\<rparr>"

definition ex_prop :: property where
  "ex_prop = \<lparr>prop_id = 1, prop_values = [10, 11]\<rparr>"

definition ex_prop2 :: property where
  "ex_prop2 = \<lparr>prop_id = 2, prop_values = [20]\<rparr>"

definition ex_var :: item_variation where
  "ex_var = \<lparr>var_id = 1, var_values = [\<lparr>pv_prop = 2, pv_id = 20\<rparr>, \<lparr>pv_prop = 1, pv_id = 10\<rparr>],
             var_active = True, var_default_price = Some 2000,
             var_quotas = [ex_unlimited, ex_quota, ex_quota2]\<rparr>"

definition ex_var_no_quota :: item_variation where
  "ex_var_no_quota = \<lparr>var_id = 2, var_values = [\<lparr>pv_prop = 1, pv_id = 11\<rparr>, \<lparr>pv_prop = 2, pv_id = 20\<rparr>],
             var_active = True, var_default_price = None, var_quotas = []\<rparr>"

definition ex_var_stale :: item_variation where
  "ex_var_stale = \<lparr>var_id = 3, var_values = [\<lparr>pv_prop = 1, pv_id = 10\<rparr>],
             var_active = True, var_default_price = None, var_quotas = [ex_quota]\<rparr>"

definition ex_var_double :: item_variation where
  "ex_var_double = \<lparr>var_id = 4, var_values = [\<lparr>pv_prop = 1, pv_id = 10\<rparr>, \<lparr>pv_prop = 1, pv_id = 11\<rparr>],
             var_active = True, var_default_price = None, var_quotas = [ex_quota]\<rparr>"

definition ex_item_props :: item where
  "ex_item_props = ex_item\<lparr>properties := [ex_prop, ex_prop2],
                            variations := [ex_var, ex_var_no_quota, ex_var_stale]\<rparr>"

definition ex_item_double :: item where
  "ex_item_double = ex_item\<lparr>properties := [ex_prop], variations := [ex_var_double]\<rparr>"

section \<open>Counting\<close>

lemma Sum_agg_Case_When:
  "Sum_agg (map (\<lambda>p. Case_When (P p)) rows) =
     (if filter P rows = [] then None else Some (int (length (filter P rows))))"
  by (induction rows) (auto simp: Case_When_def)

lemma none_to_zero_Sum_agg:
  "none_to_zero (Sum_agg (map (\<lambda>p. Case_When (P p)) rows)) = int (length (filter P rows))"
  by (simp add: Sum_agg_Case_When none_to_zero_def)

lemma filter_rows_Cons:
  "filter_rows cond (p # ps) =
     replicate (length (filter (cond p) (joined_rows p))) p @ filter_rows cond ps"
  by (simp add: filter_rows_def map_replicate_const)

lemma length_filter_rows:
  "length (filter P (filter_rows cond ps)) =
     sum_list (map (\<lambda>p. if P p then length (filter (cond p) (joined_rows p)) else 0) ps)"
  by (induction ps) (simp_all add: filter_rows_Cons filter_rows_def)

lemma length_filter_rows_all:
  "length (filter_rows cond ps) = sum_list (map (\<lambda>p. length (filter (cond p) (joined_rows p))) ps)"
  using length_filter_rows [of "\<lambda>p. True" cond ps] by simp

lemma paid_count_orders:
  "paid (count_orders now db q) =
     int (sum_list (map (\<lambda>p. if order_status p = STATUS_PAID then matching_rows q p else 0)
                     (order_positions db)))"
  unfolding matching_rows_def
  by (simp add: count_orders_def Let_def none_to_zero_Sum_agg length_filter_rows)

lemma pending_count_orders:
  "pending (count_orders now db q) =
     int (sum_list (map (\<lambda>p. if order_status p = STATUS_PENDING \<and> now \<le> order_expires p
                                then matching_rows q p else 0)
                     (order_positions db)))"
  unfolding matching_rows_def
  by (simp add: count_orders_def Let_def none_to_zero_Sum_agg length_filter_rows)

lemma count_in_cart_sum:
  "count_in_cart now db q =
     int (sum_list (map (\<lambda>p. if now \<le> expires p then matching_rows q p else 0)
                     (cart_positions db)))"
proof -
  have "length (filter (\<lambda>row. now \<le> expires p \<and> position_lookup q p row) (joined_rows p))
          = (if now \<le> expires p then matching_rows q p else 0)" for p :: cart_position
    by (simp add: matching_rows_def)
  then show ?thesis
    by (simp add: count_in_cart_def length_filter_rows_all)
qed

lemma length_filter_product_fst:
  "length (filter (\<lambda>row. P (fst row)) (List.product xs ys)) = length (filter P xs) * length ys"
  by (induction xs) (simp_all add: filter_map comp_def)

lemma length_filter_product_snd:
  "length (filter (\<lambda>row. P (snd row)) (List.product xs ys)) = length xs * length (filter P ys)"
  by (induction xs) (simp_all add: filter_map comp_def)

text \<open>
  How often a position is counted: a position without variation once for each row that
  puts its item in the quota; a position with a variation once for each pair of a quota of
  its item (or the one NULL) and a row that puts its variation in the quota.
\<close>

lemma matching_rows_eq:
  "matching_rows q p =
     (case variation_quotas p of
        None \<Rightarrow> count_list (item_quotas p) (quota_id q)
      | Some vqs \<Rightarrow> max 1 (length (item_quotas p)) * count_list vqs (quota_id q))"
proof -
  have some: "length (filter (\<lambda>x. x = Some a) (map Some qs)) = count_list qs a"
    for a :: nat and qs
    by (induction qs) auto
  have loj: "length (filter (\<lambda>x. x = Some a) (left_outer_join qs)) = count_list qs a"
    for a :: nat and qs
    using some [of a qs] by (cases qs) (simp_all add: left_outer_join_def)
  have len: "length (left_outer_join qs) = max 1 (length qs)" for qs
    by (cases qs) (simp_all add: left_outer_join_def)
  show ?thesis
  proof (cases "variation_quotas p")
    case None
    then have rows: "joined_rows p = List.product (left_outer_join (item_quotas p)) [None]"
      by (simp add: joined_rows_def left_outer_join_def)
    have "filter (position_lookup q p) (joined_rows p)
            = filter (\<lambda>row. fst row = Some (quota_id q)) (joined_rows p)"
      by (rule filter_cong) (auto simp: rows position_lookup_def None)
    with None show ?thesis
      by (simp add: matching_rows_def rows loj
          length_filter_product_fst [of "\<lambda>x. x = Some (quota_id q)"])
  next
    case (Some vqs)
    then have "position_lookup q p = (\<lambda>row. snd row = Some (quota_id q))"
      by (simp add: fun_eq_iff position_lookup_def)
    with Some show ?thesis
      by (simp add: matching_rows_def joined_rows_def loj len
          length_filter_product_snd [of "\<lambda>x. x = Some (quota_id q)"])
  qed
qed

lemma paid_nonneg: "0 \<le> paid (count_orders now db q)"
  by (simp add: paid_count_orders)

lemma pending_nonneg: "0 \<le> pending (count_orders now db q)"
  by (simp add: pending_count_orders)

lemma cart_nonneg: "0 \<le> count_in_cart now db q"
  by (simp add: count_in_cart_sum)

lemma ex_matching_rows:
  "matching_rows ex_quota (ex_order st t) = 1"
  "matching_rows ex_quota (ex_cart t) = 1"
  "matching_rows ex_quota2 (ex_order st t) = 0"
  "matching_rows ex_quota2 (ex_cart t) = 0"
  "matching_rows ex_quota (ex_variation_order st t) = 2"
  "matching_rows ex_quota (ex_variation_cart t) = 2"
  by (simp_all add: matching_rows_def joined_rows_def left_outer_join_def position_lookup_def
      ex_quota_def ex_quota2_def ex_order_def ex_cart_def ex_variation_order_def
      ex_variation_cart_def)

text \<open>
  Claim C4. \<^verbatim>\<open>count_orders\<close> counts a position as pending only if its order is pending
  and the order expires at or after the current instant, and then once for each of its
  joined rows that matches the quota; a pending order that expired one second ago adds
  nothing. It counts as paid only positions of paid orders, again once for each matching
  row. A null aggregate becomes 0: with no position both counts are 0, and neither count
  is ever negative or null. \<^verbatim>\<open>count_in_cart\<close> counts only cart positions that expire at
  or after the current instant, once for each matching row.
\<close>

theorem count_orders_count_in_cart:
  "pending (count_orders now (db\<lparr>order_positions := p # ps\<rparr>) q) =
     pending (count_orders now (db\<lparr>order_positions := ps\<rparr>) q)
       + (if order_status p = STATUS_PENDING \<and> now \<le> order_expires p
          then int (matching_rows q p) else 0)
   \<and> (order_expires p < now \<or> order_status p \<noteq> STATUS_PENDING \<longrightarrow>
        pending (count_orders now (db\<lparr>order_positions := p # ps\<rparr>) q) =
          pending (count_orders now (db\<lparr>order_positions := ps\<rparr>) q))
   \<and> (order_expires p = now - 1 \<longrightarrow>
        pending (count_orders now (db\<lparr>order_positions := p # ps\<rparr>) q) =
          pending (count_orders now (db\<lparr>order_positions := ps\<rparr>) q))
   \<and> paid (count_orders now (db\<lparr>order_positions := p # ps\<rparr>) q) =
       paid (count_orders now (db\<lparr>order_positions := ps\<rparr>) q)
         + (if order_status p = STATUS_PAID then int (matching_rows q p) else 0)
   \<and> (order_status p \<noteq> STATUS_PAID \<longrightarrow>
        paid (count_orders now (db\<lparr>order_positions := p # ps\<rparr>) q) =
          paid (count_orders now (db\<lparr>order_positions := ps\<rparr>) q))
   \<and> count_orders now (db\<lparr>order_positions := []\<rparr>) q = \<lparr>paid = 0, pending = 0\<rparr>
   \<and> 0 \<le> paid (count_orders now db q) \<and> 0 \<le> pending (count_orders now db q)
   \<and> count_in_cart now (db\<lparr>cart_positions := c # cs\<rparr>) q =
       count_in_cart now (db\<lparr>cart_positions := cs\<rparr>) q
         + (if now \<le> expires c then int (matching_rows q c) else 0)
   \<and> (expires c < now \<longrightarrow>
        count_in_cart now (db\<lparr>cart_positions := c # cs\<rparr>) q =
          count_in_cart now (db\<lparr>cart_positions := cs\<rparr>) q)
   \<and> count_in_cart now (db\<lparr>cart_positions := []\<rparr>) q = 0"
proof -
  have empty: "count_orders now (db\<lparr>order_positions := []\<rparr>) q = \<lparr>paid = 0, pending = 0\<rparr>"
    by (simp add: count_orders_def none_to_zero_def filter_rows_def)
  show ?thesis
    by (simp add: empty paid_count_orders pending_count_orders count_in_cart_sum)
qed

theorem count_orders_count_in_cart_witness:
  "order_expires (ex_order STATUS_PENDING 99) = 100 - 1
   \<and> matching_rows ex_quota (ex_order STATUS_PENDING 100) = 1
   \<and> matching_rows ex_quota (ex_variation_order STATUS_PENDING 100) = 2
   \<and> pending (count_orders 100 ex_orders ex_quota) = 3
   \<and> paid (count_orders 100 ex_orders ex_quota) = 3
   \<and> count_in_cart 100 ex_orders ex_quota = 3"
  using count_orders_count_in_cart [where now = 100 and db = ex_orders and q = ex_quota
      and p = "ex_order STATUS_PENDING 99"
      and ps = "[ex_order STATUS_PENDING 100, ex_order STATUS_PAID 99, ex_order STATUS_EXPIRED 200,
                 ex_variation_order STATUS_PAID 99, ex_variation_order STATUS_PENDING 100]"
      and c = "ex_cart 99" and cs = "[ex_cart 100, ex_variation_cart 100]"]
  by (simp add: ex_orders_def paid_count_orders pending_count_orders count_in_cart_sum
      ex_matching_rows)
     (simp add: ex_order_def ex_cart_def ex_variation_order_def ex_variation_cart_def)

section \<open>Availability of one quota\<close>

lemma availability_Some:
  "quota_size q = Some c \<Longrightarrow>
   availability now db q =
     (if c - paid (count_orders now db q) \<le> 0 then (AVAILABILITY_GONE, Some 0)
      else if c - paid (count_orders now db q) - pending (count_orders now db q) \<le> 0
        then (AVAILABILITY_ORDERED, Some 0)
      else if c - paid (count_orders now db q) - pending (count_orders now db q)
                - count_in_cart now db q \<le> 0
        then (AVAILABILITY_RESERVED, Some 0)
      else (AVAILABILITY_OK, Some (c - paid (count_orders now db q)
                                    - pending (count_orders now db q) - count_in_cart now db q)))"
  by (simp add: availability_def Let_def)

lemma availability_None: "quota_size q = None \<Longrightarrow> availability now db q = (AVAILABILITY_OK, None)"
  by (simp add: availability_def)

lemma ex_counts:
  "paid (count_orders 100 (ex_db p n k) ex_quota) = int p"
  "pending (count_orders 100 (ex_db p n k) ex_quota) = int n"
  "count_in_cart 100 (ex_db p n k) ex_quota = int k"
  by (simp_all add: paid_count_orders pending_count_orders count_in_cart_sum ex_db_def
      ex_matching_rows sum_list_replicate)
     (simp_all add: ex_order_def ex_cart_def)

lemma ex_counts2:
  "paid (count_orders 100 (ex_db p n k) ex_quota2) = 0"
  "pending (count_orders 100 (ex_db p n k) ex_quota2) = 0"
  "count_in_cart 100 (ex_db p n k) ex_quota2 = 0"
  by (simp_all add: paid_count_orders pending_count_orders count_in_cart_sum ex_db_def
      ex_matching_rows sum_list_replicate)

lemma ex_sizes:
  "quota_size ex_quota = Some 10" "quota_size ex_quota2 = Some 5" "quota_size ex_unlimited = None"
  by (simp_all add: ex_quota_def ex_quota2_def ex_unlimited_def)

lemma ex_availability:
  "availability 100 (ex_db 3 2 2) ex_unlimited = (AVAILABILITY_OK, None)"
  "availability 100 (ex_db 3 2 2) ex_quota = (AVAILABILITY_OK, Some 3)"
  "availability 100 (ex_db 3 2 2) ex_quota2 = (AVAILABILITY_OK, Some 5)"
  by (simp_all add: availability_None availability_Some [OF ex_sizes(1)]
      availability_Some [OF ex_sizes(2)] ex_sizes(3) ex_counts ex_counts2)

text \<open>
  Claim C1. A quota without capacity is \<open>(OK, null)\<close> whatever the counts are. Otherwise
  the result follows the ordered subtraction: \<open>(GONE, 0)\<close> if capacity - paid \<open>\<le> 0\<close>, else
  \<open>(ORDERED, 0)\<close> if capacity - paid - pending \<open>\<le> 0\<close>, else \<open>(RESERVED, 0)\<close> if
  capacity - paid - pending - cart \<open>\<le> 0\<close>, else \<open>OK\<close> with that strictly positive
  remainder. In particular capacity 10 with 10 paid is \<open>(GONE, 0)\<close>; with 3 paid and 7
  pending \<open>(ORDERED, 0)\<close>; with 3 paid, 2 pending and 5 in carts \<open>(RESERVED, 0)\<close>; with 1
  paid, 1 pending and 1 in a cart \<open>(OK, 7)\<close>.
\<close>

theorem availability_ordered_subtraction:
  "(quota_size q = None \<longrightarrow> availability now db q = (AVAILABILITY_OK, None))
   \<and> (quota_size q = Some capacity \<longrightarrow>
        availability now db q =
          (if capacity - paid (count_orders now db q) \<le> 0 then (AVAILABILITY_GONE, Some 0)
           else if capacity - paid (count_orders now db q) - pending (count_orders now db q) \<le> 0
             then (AVAILABILITY_ORDERED, Some 0)
           else if capacity - paid (count_orders now db q) - pending (count_orders now db q)
                     - count_in_cart now db q \<le> 0
             then (AVAILABILITY_RESERVED, Some 0)
           else (AVAILABILITY_OK, Some (capacity - paid (count_orders now db q)
                                    - pending (count_orders now db q) - count_in_cart now db q))))
   \<and> (quota_size q = Some capacity \<and> fst (availability now db q) = AVAILABILITY_OK \<longrightarrow>
        (\<exists>r. snd (availability now db q) = Some r \<and> 0 < r))
   \<and> (quota_size q = Some 10 \<and> paid (count_orders now db q) = 10 \<longrightarrow>
        availability now db q = (AVAILABILITY_GONE, Some 0))
   \<and> (quota_size q = Some 10 \<and> paid (count_orders now db q) = 3
        \<and> pending (count_orders now db q) = 7 \<longrightarrow>
        availability now db q = (AVAILABILITY_ORDERED, Some 0))
   \<and> (quota_size q = Some 10 \<and> paid (count_orders now db q) = 3
        \<and> pending (count_orders now db q) = 2 \<and> count_in_cart now db q = 5 \<longrightarrow>
        availability now db q = (AVAILABILITY_RESERVED, Some 0))
   \<and> (quota_size q = Some 10 \<and> paid (count_orders now db q) = 1
        \<and> pending (count_orders now db q) = 1 \<and> count_in_cart now db q = 1 \<longrightarrow>
        availability now db q = (AVAILABILITY_OK, Some 7))"
proof -
  have ok: "quota_size q = Some capacity \<and> fst (availability now db q) = AVAILABILITY_OK \<longrightarrow>
        (\<exists>r. snd (availability now db q) = Some r \<and> 0 < r)"
    by (auto simp: availability_Some AVAILABILITY_OK_def AVAILABILITY_GONE_def
        AVAILABILITY_ORDERED_def AVAILABILITY_RESERVED_def split: if_splits)
  show ?thesis
    using ok by (simp add: availability_None availability_Some)
qed

theorem availability_ordered_subtraction_witness:
  "availability 100 (ex_db 3 2 1) ex_unlimited = (AVAILABILITY_OK, None)
   \<and> availability 100 (ex_db 10 0 0) ex_quota = (AVAILABILITY_GONE, Some 0)
   \<and> availability 100 (ex_db 3 7 0) ex_quota = (AVAILABILITY_ORDERED, Some 0)
   \<and> availability 100 (ex_db 3 2 5) ex_quota = (AVAILABILITY_RESERVED, Some 0)
   \<and> availability 100 (ex_db 1 1 1) ex_quota = (AVAILABILITY_OK, Some 7)"
  using availability_ordered_subtraction [of ex_unlimited 100 "ex_db 3 2 1" 0]
    availability_ordered_subtraction [of ex_quota 100 "ex_db 10 0 0" 10]
    availability_ordered_subtraction [of ex_quota 100 "ex_db 3 7 0" 10]
    availability_ordered_subtraction [of ex_quota 100 "ex_db 3 2 5" 10]
    availability_ordered_subtraction [of ex_quota 100 "ex_db 1 1 1" 10]
  by (simp add: ex_counts) (simp add: ex_quota_def ex_unlimited_def)

text \<open>
  Claim C3. For a finite capacity and fixed pending and cart counts, the status is antitone
  in the paid count under \<open>GONE < ORDERED < RESERVED < OK\<close>: more paid positions can only
  move the status toward \<open>GONE\<close> or keep it.
\<close>

theorem availability_antitone_paid:
  "quota_size q = Some capacity \<Longrightarrow>
   pending (count_orders now db' q) = pending (count_orders now db q) \<Longrightarrow>
   count_in_cart now db' q = count_in_cart now db q \<Longrightarrow>
   paid (count_orders now db q) \<le> paid (count_orders now db' q) \<Longrightarrow>
   AVAILABILITY_GONE < AVAILABILITY_ORDERED \<and> AVAILABILITY_ORDERED < AVAILABILITY_RESERVED
   \<and> AVAILABILITY_RESERVED < AVAILABILITY_OK
   \<and> fst (availability now db' q) \<le> fst (availability now db q)"
  by (simp add: availability_Some AVAILABILITY_OK_def AVAILABILITY_GONE_def
        AVAILABILITY_ORDERED_def AVAILABILITY_RESERVED_def)

theorem availability_antitone_paid_witness:
  "quota_size ex_quota = Some 10
   \<and> paid (count_orders 100 (ex_db 3 2 1) ex_quota) \<le> paid (count_orders 100 (ex_db 9 2 1) ex_quota)
   \<and> fst (availability 100 (ex_db 3 2 1) ex_quota) = AVAILABILITY_OK
   \<and> fst (availability 100 (ex_db 9 2 1) ex_quota) = AVAILABILITY_ORDERED
   \<and> fst (availability 100 (ex_db 9 2 1) ex_quota) \<le> fst (availability 100 (ex_db 3 2 1) ex_quota)"
proof -
  have q: "quota_size ex_quota = Some 10" by (simp add: ex_quota_def)
  have le: "fst (availability 100 (ex_db 9 2 1) ex_quota) \<le> fst (availability 100 (ex_db 3 2 1) ex_quota)"
    using availability_antitone_paid [OF q, of 100 "ex_db 9 2 1" "ex_db 3 2 1"]
    by (simp add: ex_counts)
  show ?thesis using q le by (simp add: availability_Some ex_counts)
qed

section \<open>Availability of an item\<close>

text \<open>
  Claim C8. \<^verbatim>\<open>is_available\<close> holds exactly when the item is active, its
  \<^verbatim>\<open>available_from\<close> is null or not after now, and its \<^verbatim>\<open>available_until\<close> is null
  or not before now. It reads nothing else of the item: items that agree on these three
  fields agree on the result, whatever their quotas and variations are.
\<close>

theorem is_available_iff:
  "(is_available now item \<longleftrightarrow>
      active item
      \<and> (available_from item = None \<or> (\<exists>t. available_from item = Some t \<and> t \<le> now))
      \<and> (available_until item = None \<or> (\<exists>t. available_until item = Some t \<and> now \<le> t)))
   \<and> is_available now (item\<lparr>quotas := qs, variations := vs\<rparr>) = is_available now item
   \<and> (active item' = active item \<and> available_from item' = available_from item
        \<and> available_until item' = available_until item \<longrightarrow>
        is_available now item' = is_available now item)"
  by (auto simp: is_available_def split: option.splits)

theorem is_available_iff_witness:
  "is_available 100 ex_item \<and> \<not> is_available 99 ex_item \<and> \<not> is_available 101 ex_item
   \<and> is_available 101 (ex_item\<lparr>available_until := None\<rparr>)
   \<and> \<not> is_available 100 (ex_item\<lparr>active := False\<rparr>)"
  using is_available_iff [where now = 100 and item = ex_item]
    is_available_iff [where now = 99 and item = ex_item]
    is_available_iff [where now = 101 and item = ex_item]
    is_available_iff [where now = 101 and item = "ex_item\<lparr>available_until := None\<rparr>"]
    is_available_iff [where now = 100 and item = "ex_item\<lparr>active := False\<rparr>"]
  by (simp add: ex_item_def)

section \<open>Combining the quotas of an item or variation\<close>

lemma fold_min_key:
  fixes key :: "'a \<Rightarrow> 'k::linorder"
  shows "fold (\<lambda>y m. if key y < key m then y else m) rest x \<in> set (x # rest)
   \<and> (\<forall>y\<in>set (x # rest). key (fold (\<lambda>y m. if key y < key m then y else m) rest x) \<le> key y)"
proof (induction rest arbitrary: x)
  case Nil
  then show ?case by simp
next
  case (Cons a rest)
  show ?case
  proof (cases "key a < key x")
    case True
    with Cons.IH [of a] show ?thesis by (auto intro: order_trans less_imp_le)
  next
    case False
    with Cons.IH [of x] show ?thesis by (auto simp: not_less intro: order_trans)
  qed
qed

lemma min_key_least:
  "xs \<noteq> [] \<Longrightarrow> \<exists>m. min_key key xs = Inr m \<and> m \<in> set xs \<and> (\<forall>y\<in>set xs. key m \<le> key y)"
  using fold_min_key [of key "tl xs" "hd xs"]
  by (cases xs) (auto simp: min_key_def)

lemma availability_remaining_bound:
  "quota_size q = Some c \<Longrightarrow> c < bound \<Longrightarrow> 0 < bound \<Longrightarrow>
   \<exists>r. snd (availability now db q) = Some r \<and> r < bound"
  using paid_nonneg [of now db q] pending_nonneg [of now db q] cart_nonneg [of now db q]
  by (simp add: availability_Some)

lemma key_le_spec_le:
  assumes "check_quotas_key a \<le> check_quotas_key b"
    and "\<forall>r. snd a = Some r \<longrightarrow> r < sys_maxsize"
    and "\<forall>r. snd b = Some r \<longrightarrow> r < sys_maxsize"
  shows "spec_le a b"
  using assms
  by (cases a; cases b)
     (auto simp: check_quotas_key_def spec_le_def remaining_le_def split: option.splits)

lemma spec_le_antisym: "spec_le a b \<Longrightarrow> spec_le b a \<Longrightarrow> a = b"
  by (cases a; cases b) (auto simp: spec_le_def remaining_le_def split: option.splits)

lemma min_key_spec_minimum:
  assumes ne: "qs \<noteq> []"
    and bound: "\<forall>q\<in>set qs. \<forall>c. quota_size q = Some c \<longrightarrow> c < sys_maxsize"
  shows "\<exists>m. min_key check_quotas_key (map (availability now db) qs) = Inr m
            \<and> spec_minimum (map (availability now db) qs) m
            \<and> (\<forall>m'. spec_minimum (map (availability now db) qs) m' \<longrightarrow> m' = m)"
proof -
  let ?rs = "map (availability now db) qs"
  have fin: "\<forall>a\<in>set ?rs. \<forall>r. snd a = Some r \<longrightarrow> r < sys_maxsize"
  proof (intro ballI allI impI)
    fix a r assume a: "a \<in> set ?rs" and r: "snd a = Some r"
    then obtain q where q: "q \<in> set qs" and aq: "a = availability now db q" by auto
    show "r < sys_maxsize"
    proof (cases "quota_size q")
      case None
      with aq r show ?thesis by (simp add: availability_None)
    next
      case (Some c)
      with bound q have "c < sys_maxsize" by blast
      from availability_remaining_bound [OF Some this, of now db] aq r
      show ?thesis by (simp add: sys_maxsize_def)
    qed
  qed
  from ne have "?rs \<noteq> []" by simp
  from min_key_least [OF this, of check_quotas_key]
  obtain m where m: "min_key check_quotas_key ?rs = Inr m" "m \<in> set ?rs"
    "\<forall>y\<in>set ?rs. check_quotas_key m \<le> check_quotas_key y" by blast
  have min: "spec_minimum ?rs m"
    unfolding spec_minimum_def using m fin by (blast intro: key_le_spec_le)
  have "m' = m" if "spec_minimum ?rs m'" for m'
    using that min by (auto simp: spec_minimum_def intro!: spec_le_antisym)
  with m min show ?thesis by blast
qed

text \<open>
  Claim C2, as amended. For an item without properties, and for a variation, that is in at
  least one quota, where every finite capacity is below \<^verbatim>\<open>sys.maxsize\<close>:
  \<^verbatim>\<open>check_quotas\<close> returns the least of the quotas' availability results in the
  specification's order (status first, then the smaller remaining count, null being larger
  than every finite count); the pair returned is the result of one of the quotas, and it is
  the only least one.
\<close>

theorem check_quotas_minimum:
  "(properties item = [] \<and> quotas item \<noteq> []
      \<and> (\<forall>q\<in>set (quotas item). \<forall>c. quota_size q = Some c \<longrightarrow> c < sys_maxsize) \<longrightarrow>
      (\<exists>m. Item_check_quotas now db item = Inr m
          \<and> spec_minimum (map (availability now db) (quotas item)) m
          \<and> (\<forall>m'. spec_minimum (map (availability now db) (quotas item)) m' \<longrightarrow> m' = m)))
   \<and> (var_quotas var \<noteq> []
      \<and> (\<forall>q\<in>set (var_quotas var). \<forall>c. quota_size q = Some c \<longrightarrow> c < sys_maxsize) \<longrightarrow>
      (\<exists>m. ItemVariation_check_quotas now db var = Inr m
          \<and> spec_minimum (map (availability now db) (var_quotas var)) m
          \<and> (\<forall>m'. spec_minimum (map (availability now db) (var_quotas var)) m' \<longrightarrow> m' = m)))"
proof (intro conjI impI)
  assume a: "properties item = [] \<and> quotas item \<noteq> []
      \<and> (\<forall>q\<in>set (quotas item). \<forall>c. quota_size q = Some c \<longrightarrow> c < sys_maxsize)"
  then have "Item_check_quotas now db item
              = min_key check_quotas_key (map (availability now db) (quotas item))"
    by (simp add: Item_check_quotas_def)
  with min_key_spec_minimum [of "quotas item" now db] a
  show "\<exists>m. Item_check_quotas now db item = Inr m
          \<and> spec_minimum (map (availability now db) (quotas item)) m
          \<and> (\<forall>m'. spec_minimum (map (availability now db) (quotas item)) m' \<longrightarrow> m' = m)"
    by simp
next
  assume a: "var_quotas var \<noteq> []
      \<and> (\<forall>q\<in>set (var_quotas var). \<forall>c. quota_size q = Some c \<longrightarrow> c < sys_maxsize)"
  with min_key_spec_minimum [of "var_quotas var" now db]
  show "\<exists>m. ItemVariation_check_quotas now db var = Inr m
          \<and> spec_minimum (map (availability now db) (var_quotas var)) m
          \<and> (\<forall>m'. spec_minimum (map (availability now db) (var_quotas var)) m' \<longrightarrow> m' = m)"
    by (simp add: ItemVariation_check_quotas_def)
qed

theorem check_quotas_minimum_witness:
  "spec_minimum (map (availability 100 (ex_db 3 2 2)) (quotas ex_item)) (AVAILABILITY_OK, Some 3)
   \<and> Item_check_quotas 100 (ex_db 3 2 2) ex_item = Inr (AVAILABILITY_OK, Some 3)
   \<and> spec_minimum (map (availability 100 (ex_db 3 2 2)) (var_quotas ex_var)) (AVAILABILITY_OK, Some 3)
   \<and> ItemVariation_check_quotas 100 (ex_db 3 2 2) ex_var = Inr (AVAILABILITY_OK, Some 3)"
proof -
  have qs: "quotas ex_item = [ex_unlimited, ex_quota, ex_quota2]"
    "var_quotas ex_var = [ex_unlimited, ex_quota, ex_quota2]" "properties ex_item = []"
    by (simp_all add: ex_item_def ex_var_def)
  have bound: "\<forall>q\<in>set [ex_unlimited, ex_quota, ex_quota2]. \<forall>c. quota_size q = Some c \<longrightarrow> c < sys_maxsize"
    by (simp add: ex_sizes sys_maxsize_def)
  have least: "spec_minimum (map (availability 100 (ex_db 3 2 2)) [ex_unlimited, ex_quota, ex_quota2])
                 (AVAILABILITY_OK, Some 3)"
    by (simp add: spec_minimum_def spec_le_def remaining_le_def ex_availability)
  from check_quotas_minimum [of ex_item 100 "ex_db 3 2 2" ex_var] qs bound least
  show ?thesis by auto
qed

text \<open>
  The claim as stated fails when a capacity reaches \<^verbatim>\<open>sys.maxsize\<close>: the key maps a
  null remaining to \<^verbatim>\<open>sys.maxsize\<close>, so an unlimited quota ties with a quota that has
  \<^verbatim>\<open>sys.maxsize\<close> left, and \<^verbatim>\<open>min\<close> keeps the first of the two.
\<close>

theorem check_quotas_minimum_counterexample:
  "properties (ex_item\<lparr>quotas := cx_quotas\<rparr>) = []
   \<and> Item_check_quotas 100 (ex_db 0 0 0) (ex_item\<lparr>quotas := cx_quotas\<rparr>) = Inr (AVAILABILITY_OK, None)
   \<and> map (availability 100 (ex_db 0 0 0)) cx_quotas
       = [(AVAILABILITY_OK, None), (AVAILABILITY_OK, Some sys_maxsize)]
   \<and> \<not> spec_le (AVAILABILITY_OK, None) (AVAILABILITY_OK, Some sys_maxsize)
   \<and> \<not> spec_minimum (map (availability 100 (ex_db 0 0 0)) cx_quotas) (AVAILABILITY_OK, None)"
proof -
  have av: "map (availability 100 (ex_db 0 0 0)) cx_quotas
       = [(AVAILABILITY_OK, None), (AVAILABILITY_OK, Some sys_maxsize)]"
    by (simp add: cx_quotas_def availability_def Let_def paid_count_orders pending_count_orders
        count_in_cart_sum ex_db_def sys_maxsize_def)
  have ck: "Item_check_quotas 100 (ex_db 0 0 0) (ex_item\<lparr>quotas := cx_quotas\<rparr>) = Inr (AVAILABILITY_OK, None)"
    by (simp add: Item_check_quotas_def ex_item_def av min_key_def check_quotas_key_def)
  have nl: "\<not> spec_le (AVAILABILITY_OK, None) (AVAILABILITY_OK, Some sys_maxsize)"
    by (simp add: spec_le_def remaining_le_def)
  show ?thesis using av ck nl by (simp add: spec_minimum_def ex_item_def)
qed

text \<open>
  Claim C5. For an item without properties that is in no quota, and for a variation that is
  in no quota, \<^verbatim>\<open>check_quotas\<close> raises the \<^verbatim>\<open>ValueError\<close> of \<^verbatim>\<open>min\<close> on an empty
  list; it returns no availability result.
\<close>

theorem check_quotas_no_quotas:
  "(properties item = [] \<and> quotas item = [] \<longrightarrow>
      Item_check_quotas now db item = Inl (ValueError ''min() arg is an empty sequence''))
   \<and> (var_quotas var = [] \<longrightarrow>
      ItemVariation_check_quotas now db var = Inl (ValueError ''min() arg is an empty sequence''))"
  by (simp add: Item_check_quotas_def ItemVariation_check_quotas_def min_key_def)

theorem check_quotas_no_quotas_witness:
  "Item_check_quotas 100 (ex_db 3 2 2) (ex_item\<lparr>quotas := []\<rparr>)
     = Inl (ValueError ''min() arg is an empty sequence'')
   \<and> ItemVariation_check_quotas 100 (ex_db 3 2 2) ex_var_no_quota
     = Inl (ValueError ''min() arg is an empty sequence'')"
  using check_quotas_no_quotas [of "ex_item\<lparr>quotas := []\<rparr>" 100 "ex_db 3 2 2" ex_var_no_quota]
  by (simp add: ex_item_def ex_var_no_quota_def)

text \<open>
  Claim C9. For an item with at least one property, \<^verbatim>\<open>check_quotas\<close> on the item
  raises a \<^verbatim>\<open>ValueError\<close> and returns no availability result, whatever the quotas are.
\<close>

theorem Item_check_quotas_properties:
  "properties item \<noteq> [] \<Longrightarrow>
   Item_check_quotas now db item =
     Inl (ValueError (''Do not call this directly on items which have properties ''
                      @ ''but call this on their ItemVariation objects''))"
  by (simp add: Item_check_quotas_def)

theorem Item_check_quotas_properties_witness:
  "properties ex_item_props \<noteq> []
   \<and> Item_check_quotas 100 (ex_db 3 2 2) ex_item_props =
     Inl (ValueError (''Do not call this directly on items which have properties ''
                      @ ''but call this on their ItemVariation objects''))"
proof -
  have p: "properties ex_item_props \<noteq> []" by (simp add: ex_item_props_def)
  from p Item_check_quotas_properties [OF p, of 100 "ex_db 3 2 2"] show ?thesis by simp
qed

section \<open>Variations of an item\<close>

lemma fold_set_entry_variation: "variation (fold set_entry vs d) = variation d"
  by (induction vs arbitrary: d) (simp_all add: set_entry_def)

lemma generated_variation:
  "properties item \<noteq> [] \<Longrightarrow> vd \<in> set (get_all_generated_variations item) \<Longrightarrow>
   \<exists>var. variation vd = Some var \<and> var \<in> set (variations item) \<and> var_quotas var \<noteq> []
         \<and> set (map pv_prop (var_values var)) = set (map prop_id (properties item))"
  by (auto simp: get_all_generated_variations_def fold_set_entry_variation)

lemma set_available_and_price_variation:
  "variation (set_available_and_price item vd) = variation vd"
  by (simp add: set_available_and_price_def Let_def split: option.splits)

lemma available_variation:
  "vd \<in> set (get_all_available_variations item) \<Longrightarrow>
   \<exists>g\<in>set (get_all_generated_variations item). variation vd = variation g"
  by (auto simp: get_all_available_variations_def set_available_and_price_variation)

lemma ex_available_variations:
  "get_all_available_variations ex_item_props =
     [\<lparr>entries = [(2, \<lparr>pv_prop = 2, pv_id = 20\<rparr>), (1, \<lparr>pv_prop = 1, pv_id = 10\<rparr>)],
       variation = Some ex_var, available = Some True, price = Some (Some 2000)\<rparr>]"
  by code_simp

text \<open>
  Claim C7, as amended. For an item without properties, \<^verbatim>\<open>get_all_variations\<close>
  returns exactly one combination, with no property entries and no variation, and sets
  neither \<^verbatim>\<open>'available'\<close> nor \<^verbatim>\<open>'price'\<close> on it; \<^verbatim>\<open>get_all_available_variations\<close>
  returns exactly one combination, with no property entries and no variation, with
  \<^verbatim>\<open>available = True\<close> and the item's default price as its price.
\<close>

theorem zero_properties_combination:
  "properties item = [] \<Longrightarrow>
   get_all_variations item = [\<lparr>entries = [], variation = None, available = None, price = None\<rparr>]
   \<and> get_all_available_variations item =
       [\<lparr>entries = [], variation = None, available = Some True, price = Some (default_price item)\<rparr>]"
  by (simp add: get_all_variations_def get_all_available_variations_def
      get_all_generated_variations_def set_available_and_price_def VariationDict_def)

theorem zero_properties_combination_witness:
  "properties ex_item = []
   \<and> get_all_variations ex_item = [\<lparr>entries = [], variation = None, available = None, price = None\<rparr>]
   \<and> get_all_available_variations ex_item =
       [\<lparr>entries = [], variation = None, available = Some True, price = Some (Some 1500)\<rparr>]"
proof -
  have p: "properties ex_item = []" by (simp add: ex_item_def)
  from p zero_properties_combination [OF p] show ?thesis by (simp add: ex_item_def)
qed

text \<open>
  The claim as stated fails for \<^verbatim>\<open>get_all_variations\<close>: its one combination carries
  neither an \<^verbatim>\<open>'available'\<close> nor a \<^verbatim>\<open>'price'\<close> entry.
\<close>

theorem zero_properties_combination_counterexample:
  "properties ex_item = []
   \<and> map available (get_all_variations ex_item) = [None]
   \<and> map price (get_all_variations ex_item) = [None]"
  by (simp add: ex_item_def get_all_variations_def VariationDict_def)

text \<open>
  Claim C10. For an item with at least one property, every entry that
  \<^verbatim>\<open>get_all_available_variations\<close> returns carries a variation of the item that is in at
  least one quota; a variation in no quota is in no entry, even when it is active and
  covers the item's properties exactly.
\<close>

theorem available_variations_have_quota:
  "(properties item \<noteq> [] \<longrightarrow>
      (\<forall>vd\<in>set (get_all_available_variations item).
         \<exists>var. variation vd = Some var \<and> var \<in> set (variations item) \<and> var_quotas var \<noteq> []))
   \<and> (var_quotas var = [] \<longrightarrow> Some var \<notin> variation ` set (get_all_available_variations item))"
proof (intro conjI impI ballI)
  fix vd assume "properties item \<noteq> []" "vd \<in> set (get_all_available_variations item)"
  then show "\<exists>var. variation vd = Some var \<and> var \<in> set (variations item) \<and> var_quotas var \<noteq> []"
    using available_variation generated_variation by metis
next
  assume nq: "var_quotas var = []"
  show "Some var \<notin> variation ` set (get_all_available_variations item)"
  proof
    assume "Some var \<in> variation ` set (get_all_available_variations item)"
    then obtain vd where vd: "vd \<in> set (get_all_available_variations item)" "variation vd = Some var"
      by force
    then obtain g where g: "g \<in> set (get_all_generated_variations item)" "variation g = Some var"
      using available_variation by metis
    show False
    proof (cases "properties item = []")
      case True
      with g show ?thesis by (simp add: get_all_generated_variations_def VariationDict_def)
    next
      case False
      from generated_variation [OF False g(1)] g(2) nq show ?thesis by auto
    qed
  qed
qed

theorem available_variations_have_quota_witness:
  "properties ex_item_props \<noteq> []
   \<and> map variation (get_all_available_variations ex_item_props) = [Some ex_var]
   \<and> var_quotas ex_var \<noteq> []
   \<and> ex_var_no_quota \<in> set (variations ex_item_props)
   \<and> var_active ex_var_no_quota \<and> covers_exactly ex_item_props ex_var_no_quota
   \<and> var_quotas ex_var_no_quota = []
   \<and> Some ex_var_no_quota \<notin> variation ` set (get_all_available_variations ex_item_props)"
proof -
  have nq: "var_quotas ex_var_no_quota = []" by (simp add: ex_var_no_quota_def)
  from available_variations_have_quota [of ex_item_props ex_var_no_quota] nq
  have out: "Some ex_var_no_quota \<notin> variation ` set (get_all_available_variations ex_item_props)"
    by blast
  have rest: "properties ex_item_props \<noteq> [] \<and> var_quotas ex_var \<noteq> []
     \<and> ex_var_no_quota \<in> set (variations ex_item_props)
     \<and> var_active ex_var_no_quota \<and> covers_exactly ex_item_props ex_var_no_quota"
    by (simp add: ex_item_props_def ex_var_def ex_var_no_quota_def covers_exactly_def
        ex_prop_def ex_prop2_def)
  from nq out rest show ?thesis by (simp add: ex_available_variations)
qed

lemma variations_cache_lookup:
  "map_of (fold (\<lambda>var cache. AList.update (variation_key (var_values var)) var cache) vars init) k
     = Some found \<Longrightarrow>
   (found \<in> set vars \<and> variation_key (var_values found) = k) \<or> map_of init k = Some found"
proof (induction vars arbitrary: init)
  case Nil
  then show ?case by simp
next
  case (Cons v vars)
  from Cons.IH [of "AList.update (variation_key (var_values v)) v init"] Cons.prems
  show ?case by (auto simp: update_conv' split: if_splits)
qed

lemma itertools_product_props:
  "comb \<in> set (itertools_product (map values_all props)) \<Longrightarrow> map pv_prop comb = map prop_id props"
  by (induction props arbitrary: comb) (auto simp: values_all_def)

lemma variation_key_mset:
  assumes "variation_key vs = variation_key ws"
  shows "mset (map pv_prop vs) = mset (map pv_prop ws)"
proof -
  let ?f = "\<lambda>v. (pv_prop v, pv_id v)"
  from assms have "mset (sort (map ?f vs)) = mset (sort (map ?f ws))"
    by (simp add: variation_key_def)
  then have "mset (map ?f vs) = mset (map ?f ws)" by simp
  then have "image_mset fst (mset (map ?f vs)) = image_mset fst (mset (map ?f ws))" by simp
  then show ?thesis by (simp add: image_mset.compositionality comp_def)
qed

lemma get_all_variations_attached:
  assumes "vd \<in> set (get_all_variations item)" and "variation vd = Some var"
  shows "var \<in> set (variations item) \<and> covers_exactly item var"
proof -
  let ?cache = "fold (\<lambda>var cache. AList.update (variation_key (var_values var)) var cache)
                  (variations item) []"
  from assms(1) obtain comb where comb: "comb \<in> set (itertools_product (map values_all (properties item)))"
    and vd: "vd = (if length comb = 0 then VariationDict
                   else (case map_of ?cache (variation_key comb) of
                           Some found \<Rightarrow> (fold set_entry comb VariationDict)\<lparr>variation := Some found\<rparr>
                         | None \<Rightarrow> fold set_entry comb VariationDict))"
    by (auto simp: get_all_variations_def Let_def)
  from vd assms(2) have look: "map_of ?cache (variation_key comb) = Some var"
    by (auto simp: VariationDict_def fold_set_entry_variation split: if_splits option.splits)
  from variations_cache_lookup [OF look]
  have mem: "var \<in> set (variations item)" and key: "variation_key (var_values var) = variation_key comb"
    by simp_all
  from variation_key_mset [OF key] itertools_product_props [OF comb]
  have "covers_exactly item var" by (simp add: covers_exactly_def)
  with mem show ?thesis by simp
qed

lemma count_mset_map_filter:
  "count (mset (map f xs)) a = length (filter (\<lambda>v. f v = a) xs)"
  by (induction xs) auto

text \<open>
  When the item's properties have distinct ids, covering exactly is: each property of the
  item has one value in the variation, and each value of the variation belongs to a
  property of the item.
\<close>

lemma covers_exactly_iff:
  assumes "distinct (map prop_id (properties item))"
  shows "covers_exactly item var \<longleftrightarrow>
           (\<forall>p\<in>set (properties item).
               length (filter (\<lambda>v. pv_prop v = prop_id p) (var_values var)) = 1)
           \<and> (\<forall>v\<in>set (var_values var). pv_prop v \<in> prop_id ` set (properties item))"
proof -
  let ?ids = "map prop_id (properties item)"
  let ?refs = "map pv_prop (var_values var)"
  have cnt: "count (mset ?refs) a = length (filter (\<lambda>v. pv_prop v = a) (var_values var))" for a
    by (rule count_mset_map_filter)
  have ids: "count (mset ?ids) a = (if a \<in> set ?ids then 1 else 0)" for a
    using assms distinct_count_atmost_1 [of ?ids] by blast
  show ?thesis
  proof
    assume "covers_exactly item var"
    then have eq: "mset ?refs = mset ?ids" by (simp add: covers_exactly_def)
    then have "set ?refs = set ?ids" by (metis set_mset_mset)
    moreover have "length (filter (\<lambda>v. pv_prop v = prop_id p) (var_values var)) = 1"
      if "p \<in> set (properties item)" for p
      using that cnt [of "prop_id p"] ids [of "prop_id p"] eq by simp
    ultimately show "(\<forall>p\<in>set (properties item).
               length (filter (\<lambda>v. pv_prop v = prop_id p) (var_values var)) = 1)
           \<and> (\<forall>v\<in>set (var_values var). pv_prop v \<in> prop_id ` set (properties item))"
      by auto
  next
    assume r: "(\<forall>p\<in>set (properties item).
               length (filter (\<lambda>v. pv_prop v = prop_id p) (var_values var)) = 1)
           \<and> (\<forall>v\<in>set (var_values var). pv_prop v \<in> prop_id ` set (properties item))"
    have "count (mset ?refs) a = count (mset ?ids) a" for a
    proof (cases "a \<in> set ?ids")
      case True
      with r cnt [of a] ids [of a] show ?thesis by auto
    next
      case False
      with r have "filter (\<lambda>v. pv_prop v = a) (var_values var) = []"
        by (auto simp: filter_empty_conv)
      with False cnt [of a] ids [of a] show ?thesis by simp
    qed
    then show "covers_exactly item var"
      by (simp add: covers_exactly_def multiset_eq_iff)
  qed
qed

text \<open>
  Claim C6, as amended. A variation that does not cover exactly the item's property set (a
  missing property, a value of a removed property, or more than one value for one property)
  is attached to no combination by \<^verbatim>\<open>get_all_variations\<close>. A variation whose values refer
  to a set of properties other than the item's property set (a missing property, or a value
  of a removed property) is in no entry of \<^verbatim>\<open>get_all_available_variations\<close>.
\<close>

theorem stale_variation_never_matched:
  "(\<not> covers_exactly item var \<longrightarrow> Some var \<notin> variation ` set (get_all_variations item))
   \<and> (set (map pv_prop (var_values var)) \<noteq> set (map prop_id (properties item)) \<longrightarrow>
        Some var \<notin> variation ` set (get_all_available_variations item))"
proof (intro conjI impI)
  assume "\<not> covers_exactly item var"
  then show "Some var \<notin> variation ` set (get_all_variations item)"
    using get_all_variations_attached [of _ item var] by force
next
  assume ne: "set (map pv_prop (var_values var)) \<noteq> set (map prop_id (properties item))"
  show "Some var \<notin> variation ` set (get_all_available_variations item)"
  proof
    assume "Some var \<in> variation ` set (get_all_available_variations item)"
    then obtain vd where vd: "vd \<in> set (get_all_available_variations item)" "variation vd = Some var"
      by force
    then obtain g where g: "g \<in> set (get_all_generated_variations item)" "variation g = Some var"
      using available_variation by metis
    show False
    proof (cases "properties item = []")
      case True
      with g show ?thesis by (simp add: get_all_generated_variations_def VariationDict_def)
    next
      case False
      from generated_variation [OF False g(1)] g(2) ne show ?thesis by auto
    qed
  qed
qed

theorem stale_variation_never_matched_witness:
  "ex_var_stale \<in> set (variations ex_item_props)
   \<and> \<not> covers_exactly ex_item_props ex_var_stale
   \<and> Some ex_var_stale \<notin> variation ` set (get_all_variations ex_item_props)
   \<and> set (map pv_prop (var_values ex_var_stale)) \<noteq> set (map prop_id (properties ex_item_props))
   \<and> Some ex_var_stale \<notin> variation ` set (get_all_available_variations ex_item_props)"
proof -
  have a: "\<not> covers_exactly ex_item_props ex_var_stale"
    by (simp add: ex_item_props_def ex_var_stale_def covers_exactly_def ex_prop_def ex_prop2_def)
  have b: "set (map pv_prop (var_values ex_var_stale)) \<noteq> set (map prop_id (properties ex_item_props))"
    by (simp add: ex_item_props_def ex_var_stale_def ex_prop_def ex_prop2_def)
  have c: "ex_var_stale \<in> set (variations ex_item_props)"
    by (simp add: ex_item_props_def)
  from stale_variation_never_matched [of ex_item_props ex_var_stale] a b c
  show ?thesis by blast
qed

text \<open>
  The claim as stated fails for \<^verbatim>\<open>get_all_available_variations\<close>, which compares sets
  of property ids: a variation with two values of the item's one property is returned.
\<close>

theorem stale_variation_never_matched_counterexample:
  "ex_var_double \<in> set (variations ex_item_double)
   \<and> \<not> covers_exactly ex_item_double ex_var_double
   \<and> length (filter (\<lambda>v. pv_prop v = prop_id ex_prop) (var_values ex_var_double)) = 2
   \<and> map variation (get_all_available_variations ex_item_double) = [Some ex_var_double]"
  by code_simp

end
